theory Spec2Isabelle
  imports Complex_Main "HOL-Library.Log_Nat"
begin

section \<open>The JavaScript values the time-window code computes with\<close>

text \<open>
  The functions of \<^verbatim>\<open>uiComponents.js\<close> and \<^verbatim>\<open>app.js\<close> receive JavaScript values and
  compute with numbers. A number is an IEEE 754 double: a finite value, \<open>NaN\<close> or one of
  the two infinities. A finite value is kept as the rational it denotes, and every
  operation that produces a number (multiplication, addition, the conversion of a string)
  rounds its exact result to the nearest double, ties to even, with overflow to an
  infinity and gradual underflow. The sign of zero is not kept; no operation here
  observes it. A string is a list of code units below 256.
\<close>

datatype jsnum = Num rat | NaN | PosInfinity | NegInfinity

datatype jsval = JUndefined | JNull | JBoolean bool | JNumber jsnum | JString string

datatype error = TypeError

text \<open>\<^verbatim>\<open>!v\<close>: the values that convert to \<open>false\<close>.\<close>

fun falsy :: "jsval \<Rightarrow> bool" where
  "falsy JUndefined = True"
| "falsy JNull = True"
| "falsy (JBoolean b) = (b = False)"
| "falsy (JNumber n) = (n = Num 0 \<or> n = NaN)"
| "falsy (JString s) = (s = [])"

text \<open>\<^verbatim>\<open>typeof v !== 'string'\<close>.\<close>

fun typeof_not_string :: "jsval \<Rightarrow> bool" where
  "typeof_not_string (JString s) = False"
| "typeof_not_string v = True"

subsection \<open>Rounding to a double\<close>

text \<open>Powers of two with an integer exponent.\<close>

definition pow2 :: "int \<Rightarrow> rat" where
  "pow2 k = (if 0 \<le> k then 2 ^ nat k else 1 / 2 ^ nat (- k))"

text \<open>
  The binary exponent of a positive rational \<open>q\<close>: the \<open>e\<close> with \<open>2^e \<le> q < 2^(e+1)\<close>, found
  from the bit lengths of numerator and denominator.
\<close>

definition binade :: "rat \<Rightarrow> int" where
  "binade q =
     (case quotient_of q of
        (a, b) \<Rightarrow> (let d = bitlen a - bitlen b in if pow2 d \<le> q then d else d - 1))"

text \<open>The nearest integer, a tie going to the even one.\<close>

definition roundHalfEven :: "rat \<Rightarrow> int" where
  "roundHalfEven x =
     (let f = \<lfloor>x\<rfloor>; r = x - of_int f
      in if r < 1 / 2 then f else if 1 / 2 < r then f + 1 else if even f then f else f + 1)"

text \<open>
  The double nearest to a rational: 53 significant bits, the least exponent \<open>-1022\<close>
  (below it the spacing stays \<open>2^-1074\<close>), and an infinity once the rounded magnitude
  reaches \<open>2^1024\<close>.
\<close>

definition roundToDouble :: "rat \<Rightarrow> jsnum" where
  "roundToDouble q =
     (if q = 0 then Num 0
      else
        let a = \<bar>q\<bar>;
            j = max (binade a) (- 1022) - 52;
            v = of_int (roundHalfEven (a / pow2 j)) * pow2 j
        in if pow2 1024 \<le> v then (if 0 < q then PosInfinity else NegInfinity)
           else Num (if 0 < q then v else - v))"

subsection \<open>Arithmetic and comparison of numbers\<close>

fun js_mul :: "jsnum \<Rightarrow> jsnum \<Rightarrow> jsnum" where
  "js_mul NaN y = NaN"
| "js_mul x NaN = NaN"
| "js_mul (Num a) (Num b) = roundToDouble (a * b)"
| "js_mul (Num a) PosInfinity =
     (if a = 0 then NaN else if 0 < a then PosInfinity else NegInfinity)"
| "js_mul (Num a) NegInfinity =
     (if a = 0 then NaN else if 0 < a then NegInfinity else PosInfinity)"
| "js_mul PosInfinity (Num b) =
     (if b = 0 then NaN else if 0 < b then PosInfinity else NegInfinity)"
| "js_mul NegInfinity (Num b) =
     (if b = 0 then NaN else if 0 < b then NegInfinity else PosInfinity)"
| "js_mul PosInfinity PosInfinity = PosInfinity"
| "js_mul PosInfinity NegInfinity = NegInfinity"
| "js_mul NegInfinity PosInfinity = NegInfinity"
| "js_mul NegInfinity NegInfinity = PosInfinity"

fun js_add :: "jsnum \<Rightarrow> jsnum \<Rightarrow> jsnum" where
  "js_add NaN y = NaN"
| "js_add x NaN = NaN"
| "js_add (Num a) (Num b) = roundToDouble (a + b)"
| "js_add PosInfinity NegInfinity = NaN"
| "js_add NegInfinity PosInfinity = NaN"
| "js_add PosInfinity y = PosInfinity"
| "js_add NegInfinity y = NegInfinity"
| "js_add x PosInfinity = PosInfinity"
| "js_add x NegInfinity = NegInfinity"

text \<open>\<^verbatim>\<open>x < y\<close>; every comparison with \<open>NaN\<close> is false.\<close>

fun js_lt :: "jsnum \<Rightarrow> jsnum \<Rightarrow> bool" where
  "js_lt NaN y = False"
| "js_lt x NaN = False"
| "js_lt (Num a) (Num b) = (a < b)"
| "js_lt x NegInfinity = False"
| "js_lt NegInfinity y = True"
| "js_lt PosInfinity y = False"
| "js_lt x PosInfinity = True"

text \<open>\<^verbatim>\<open>x <= y\<close>.\<close>

fun js_le :: "jsnum \<Rightarrow> jsnum \<Rightarrow> bool" where
  "js_le NaN y = False"
| "js_le x NaN = False"
| "js_le (Num a) (Num b) = (a \<le> b)"
| "js_le NegInfinity y = True"
| "js_le x NegInfinity = False"
| "js_le x PosInfinity = True"
| "js_le PosInfinity y = False"

text \<open>\<^verbatim>\<open>x > y\<close> and \<^verbatim>\<open>x >= y\<close>.\<close>

definition js_gt :: "jsnum \<Rightarrow> jsnum \<Rightarrow> bool" where
  "js_gt x y = js_lt y x"

definition js_ge :: "jsnum \<Rightarrow> jsnum \<Rightarrow> bool" where
  "js_ge x y = js_le y x"

subsection \<open>\<^verbatim>\<open>Number\<close> applied to a string\<close>

text \<open>
  \<^verbatim>\<open>Number(s)\<close> reads the whole string as a numeric literal: white space around it is
  dropped, the empty string is \<open>0\<close>, a literal is a signed decimal (with an optional
  fraction and exponent), a signed \<^verbatim>\<open>Infinity\<close>, or an unsigned binary, octal or
  hexadecimal integer; anything else is \<open>NaN\<close>. The value of a literal is the double
  nearest to the number it writes.
\<close>

definition isStrWhiteSpaceChar :: "char \<Rightarrow> bool" where
  "isStrWhiteSpaceChar c =
     (c \<in> set [CHR 0x09, CHR 0x0A, CHR 0x0B, CHR 0x0C, CHR 0x0D, CHR 0x20, CHR 0xA0])"

definition trimString :: "string \<Rightarrow> string" where
  "trimString s = rev (dropWhile isStrWhiteSpaceChar (rev (dropWhile isStrWhiteSpaceChar s)))"

text \<open>The value of a digit character in the given radix, if it is one.\<close>

definition digitValue :: "nat \<Rightarrow> char \<Rightarrow> nat option" where
  "digitValue radix c =
     (let n = (of_char c :: nat);
          v = (if 48 \<le> n \<and> n \<le> 57 then Some (n - 48)
               else if 97 \<le> n \<and> n \<le> 102 then Some (n - 87)
               else if 65 \<le> n \<and> n \<le> 70 then Some (n - 55)
               else None)
      in case v of None \<Rightarrow> None | Some d \<Rightarrow> (if d < radix then Some d else None))"

definition isDecimalDigit :: "char \<Rightarrow> bool" where
  "isDecimalDigit c = (digitValue 10 c \<noteq> None)"

text \<open>The value of a non-empty run of digits; \<open>None\<close> when a character is no digit.\<close>

fun digitsValue :: "nat \<Rightarrow> nat \<Rightarrow> string \<Rightarrow> nat option" where
  "digitsValue radix acc [] = Some acc"
| "digitsValue radix acc (c # cs) =
     (case digitValue radix c of
        None \<Rightarrow> None
      | Some d \<Rightarrow> digitsValue radix (acc * radix + d) cs)"

definition nonDecimalIntegerLiteral :: "nat \<Rightarrow> string \<Rightarrow> jsnum" where
  "nonDecimalIntegerLiteral radix ds =
     (if ds = [] then NaN
      else case digitsValue radix 0 ds of None \<Rightarrow> NaN | Some n \<Rightarrow> roundToDouble (of_nat n))"

text \<open>The exponent part after \<^verbatim>\<open>e\<close> or \<^verbatim>\<open>E\<close>: an optional sign and at least one digit.\<close>

definition signedInteger :: "string \<Rightarrow> int option" where
  "signedInteger s =
     (let (neg, ds) = (case s of
                         c # r \<Rightarrow> if c = CHR ''-'' then (True, r)
                                  else if c = CHR ''+'' then (False, r) else (False, s)
                       | [] \<Rightarrow> (False, s))
      in if ds = [] then None
         else case digitsValue 10 0 ds of
                None \<Rightarrow> None
              | Some n \<Rightarrow> Some (if neg then - int n else int n))"

definition pow10 :: "int \<Rightarrow> rat" where
  "pow10 k = (if 0 \<le> k then 10 ^ nat k else 1 / 10 ^ nat (- k))"

definition strUnsignedDecimalLiteral :: "string \<Rightarrow> jsnum" where
  "strUnsignedDecimalLiteral s =
     (if s = ''Infinity'' then PosInfinity
      else
        let ip = takeWhile isDecimalDigit s;
            r1 = dropWhile isDecimalDigit s;
            (fp, r2) = (case r1 of
                          c # r \<Rightarrow> if c = CHR ''.''
                                   then (takeWhile isDecimalDigit r, dropWhile isDecimalDigit r)
                                   else ([], r1)
                        | [] \<Rightarrow> ([], r1));
            ex = (case r2 of
                    [] \<Rightarrow> Some 0
                  | c # r \<Rightarrow> if c = CHR ''e'' \<or> c = CHR ''E'' then signedInteger r else None)
        in if ip = [] \<and> fp = [] then NaN
           else case (digitsValue 10 0 (ip @ fp), ex) of
                  (Some n, Some k) \<Rightarrow> roundToDouble (of_nat n * pow10 (k - int (length fp)))
                | _ \<Rightarrow> NaN)"

definition js_neg :: "jsnum \<Rightarrow> jsnum" where
  "js_neg x = (case x of Num a \<Rightarrow> Num (- a) | NaN \<Rightarrow> NaN
               | PosInfinity \<Rightarrow> NegInfinity | NegInfinity \<Rightarrow> PosInfinity)"

definition strDecimalLiteral :: "string \<Rightarrow> jsnum" where
  "strDecimalLiteral s =
     (case s of
        c # r \<Rightarrow> if c = CHR ''+'' then strUnsignedDecimalLiteral r
                 else if c = CHR ''-'' then js_neg (strUnsignedDecimalLiteral r)
                 else strUnsignedDecimalLiteral s
      | [] \<Rightarrow> NaN)"

definition Number_str :: "string \<Rightarrow> jsnum" where
  "Number_str s =
     (let t = trimString s
      in case t of
           [] \<Rightarrow> Num 0
         | [c] \<Rightarrow> strDecimalLiteral t
         | c0 # c1 # ds \<Rightarrow>
             if c0 = CHR ''0'' \<and> (c1 = CHR ''x'' \<or> c1 = CHR ''X'')
               then nonDecimalIntegerLiteral 16 ds
             else if c0 = CHR ''0'' \<and> (c1 = CHR ''o'' \<or> c1 = CHR ''O'')
               then nonDecimalIntegerLiteral 8 ds
             else if c0 = CHR ''0'' \<and> (c1 = CHR ''b'' \<or> c1 = CHR ''B'')
               then nonDecimalIntegerLiteral 2 ds
             else strDecimalLiteral t)"

subsection \<open>Strings and arrays\<close>

text \<open>
  \<^verbatim>\<open>s.split(sep)\<close> for a one-character separator: the pieces between the occurrences
  of the separator, the empty string giving one empty piece.
\<close>

fun js_split :: "char \<Rightarrow> string \<Rightarrow> string list" where
  "js_split sep [] = [[]]"
| "js_split sep (c # cs) =
     (if c = sep then [] # js_split sep cs
      else case js_split sep cs of
             w # ws \<Rightarrow> (c # w) # ws
           | [] \<Rightarrow> [[c]])"

text \<open>
  \<^verbatim>\<open>v.split(':')\<close> on a value: only a string has the method; on \<^verbatim>\<open>undefined\<close>,
  \<^verbatim>\<open>null\<close>, a boolean or a number the call throws a \<^verbatim>\<open>TypeError\<close>.
\<close>

fun split_colon :: "jsval \<Rightarrow> error + string list" where
  "split_colon (JString s) = Inr (js_split CHR '':'' s)"
| "split_colon v = Inl TypeError"

text \<open>
  \<^verbatim>\<open>const [a, b] = xs\<close>: the first two elements, \<^verbatim>\<open>undefined\<close> (here \<open>None\<close>) where the
  array is too short.
\<close>

fun destructure2 :: "'a list \<Rightarrow> 'a option \<times> 'a option" where
  "destructure2 [] = (None, None)"
| "destructure2 [a] = (Some a, None)"
| "destructure2 (a # b # xs) = (Some a, Some b)"

text \<open>A destructured element used as a number: \<^verbatim>\<open>undefined\<close> converts to \<open>NaN\<close>.\<close>

fun toNumber :: "jsnum option \<Rightarrow> jsnum" where
  "toNumber None = NaN"
| "toNumber (Some n) = n"

text \<open>The global \<^verbatim>\<open>isNaN(v)\<close>.\<close>

definition isNaN :: "jsnum option \<Rightarrow> bool" where
  "isNaN v = (toNumber v = NaN)"

section \<open>The time-window functions of uiComponents.js\<close>

text \<open>\<^verbatim>\<open>timeToMinutes(time)\<close>: \<^verbatim>\<open>hours * 60 + minutes\<close> of the split and converted string.\<close>

definition timeToMinutes :: "jsval \<Rightarrow> error + jsnum" where
  "timeToMinutes time =
     (case split_colon time of
        Inl e \<Rightarrow> Inl e
      | Inr parts \<Rightarrow>
          (case destructure2 (map Number_str parts) of
             (hours, minutes) \<Rightarrow>
               Inr (js_add (js_mul (toNumber hours) (Num 60)) (toNumber minutes))))"

text \<open>
  \<^verbatim>\<open>isOvernightFlight(departureTime, arrivalTime)\<close>: both strings are split and
  converted in place, the departure first.
\<close>

definition isOvernightFlight :: "jsval \<Rightarrow> jsval \<Rightarrow> error + bool" where
  "isOvernightFlight departureTime arrivalTime =
     (case split_colon departureTime of
        Inl e \<Rightarrow> Inl e
      | Inr depParts \<Rightarrow>
          (case destructure2 (map Number_str depParts) of
             (depHours, depMinutes) \<Rightarrow>
               (case split_colon arrivalTime of
                  Inl e \<Rightarrow> Inl e
                | Inr arrParts \<Rightarrow>
                    (case destructure2 (map Number_str arrParts) of
                       (arrHours, arrMinutes) \<Rightarrow>
                         (let depTotalMinutes =
                                js_add (js_mul (toNumber depHours) (Num 60)) (toNumber depMinutes);
                              arrTotalMinutes =
                                js_add (js_mul (toNumber arrHours) (Num 60)) (toNumber arrMinutes)
                          in Inr (js_lt arrTotalMinutes depTotalMinutes))))))"

text \<open>\<^verbatim>\<open>isValidTimeRange(startTime, endTime)\<close>.\<close>

definition isValidTimeRange :: "jsval \<Rightarrow> jsval \<Rightarrow> error + bool" where
  "isValidTimeRange startTime endTime =
     (if falsy startTime \<or> falsy endTime then Inr True
      else case timeToMinutes startTime of
             Inl e \<Rightarrow> Inl e
           | Inr start \<Rightarrow>
               (case timeToMinutes endTime of
                  Inl e \<Rightarrow> Inl e
                | Inr end' \<Rightarrow> Inr (js_ge end' start)))"

text \<open>
  \<^verbatim>\<open>isTimeInRange(time, startTime, endTime, allowNextDay = false)\<close>. The fourth
  parameter is declared and never read.
\<close>

definition isTimeInRange :: "jsval \<Rightarrow> jsval \<Rightarrow> jsval \<Rightarrow> bool \<Rightarrow> error + bool" where
  "isTimeInRange time startTime endTime allowNextDay =
     (if falsy time \<or> falsy startTime \<or> falsy endTime then Inr True
      else case timeToMinutes time of
             Inl e \<Rightarrow> Inl e
           | Inr timeMinutes \<Rightarrow>
               (case timeToMinutes startTime of
                  Inl e \<Rightarrow> Inl e
                | Inr startMinutes \<Rightarrow>
                    (case timeToMinutes endTime of
                       Inl e \<Rightarrow> Inl e
                     | Inr endMinutes \<Rightarrow>
                         (if js_le startMinutes endMinutes
                          then Inr (js_ge timeMinutes startMinutes \<and> js_le timeMinutes endMinutes)
                          else Inr (js_ge timeMinutes startMinutes \<or> js_le timeMinutes endMinutes)))))"

text \<open>\<^verbatim>\<open>isArrivalTimeInRange(departureTime, arrivalTime, filterStart, filterEnd)\<close>.\<close>

definition isArrivalTimeInRange :: "jsval \<Rightarrow> jsval \<Rightarrow> jsval \<Rightarrow> jsval \<Rightarrow> error + bool" where
  "isArrivalTimeInRange departureTime arrivalTime filterStart filterEnd =
     (if falsy arrivalTime \<or> falsy filterStart \<or> falsy filterEnd then Inr True
      else case isOvernightFlight departureTime arrivalTime of
             Inl e \<Rightarrow> Inl e
           | Inr overnight \<Rightarrow>
               (if overnight then isTimeInRange arrivalTime filterStart filterEnd True
                else isTimeInRange arrivalTime filterStart filterEnd False))"

section \<open>The filtering and sorting helpers of app.js\<close>

text \<open>
  The second \<^verbatim>\<open>timeToMinutes\<close>, private to \<^verbatim>\<open>app.js\<close> and used when offers are
  sorted by departure. It guards the value and the converted parts, so it never throws.
\<close>

definition app_timeToMinutes :: "jsval \<Rightarrow> error + jsnum" where
  "app_timeToMinutes time =
     (if falsy time \<or> typeof_not_string time then Inr (Num 0)
      else case split_colon time of
             Inl e \<Rightarrow> Inl e
           | Inr parts \<Rightarrow>
               (case destructure2 (map Number_str parts) of
                  (hours, minutes) \<Rightarrow>
                    if isNaN hours \<or> isNaN minutes then Inr (Num 0)
                    else Inr (js_add (js_mul (toNumber hours) (Num 60)) (toNumber minutes))))"

text \<open>
  A result as the filters read it: the two times, the carrier of a schedule and the
  carriers of an offer (\<open>None\<close> where the record has no such array).
\<close>

record item =
  departureTime :: jsval
  arrivalTime :: jsval
  carrierCode :: jsval
  carrierCodes :: "jsval list option"

datatype mode = Schedules | Offers

text \<open>
  \<^verbatim>\<open>xs.filter(p)\<close> with a callback that may throw: the first exception ends the pass.
\<close>

fun js_filter :: "('a \<Rightarrow> error + bool) \<Rightarrow> 'a list \<Rightarrow> error + 'a list" where
  "js_filter p [] = Inr []"
| "js_filter p (x # xs) =
     (case p x of
        Inl e \<Rightarrow> Inl e
      | Inr b \<Rightarrow>
          (case js_filter p xs of
             Inl e \<Rightarrow> Inl e
           | Inr ys \<Rightarrow> Inr (if b then x # ys else ys)))"

text \<open>The values of the four time inputs and of the checkbox, as \<^verbatim>\<open>applyFilters\<close> reads them.\<close>

record filters =
  depTimeStart :: string
  depTimeEnd :: string
  arrTimeStart :: string
  arrTimeEnd :: string
  unitedOnly :: bool

text \<open>The callback of the United-only filter.\<close>

definition unitedOnlyCallback :: "mode \<Rightarrow> item \<Rightarrow> error + bool" where
  "unitedOnlyCallback currentMode it =
     (if currentMode = Schedules then Inr (carrierCode it = JString ''UA'')
      else case carrierCodes it of
             None \<Rightarrow> Inr False
           | Some codes \<Rightarrow> Inr (list_all (\<lambda>code. code = JString ''UA'') codes))"

text \<open>
  The list \<^verbatim>\<open>applyFilters\<close> stores in \<^verbatim>\<open>state.filteredResults\<close>, from the copy of
  \<^verbatim>\<open>state.currentResults\<close>: the departure filter, the arrival filter and the
  United-only filter, each applied when it is set.
\<close>

definition filterResults :: "filters \<Rightarrow> mode \<Rightarrow> item list \<Rightarrow> error + item list" where
  "filterResults f currentMode currentResults =
     (case (if \<not> falsy (JString (depTimeStart f)) \<and> \<not> falsy (JString (depTimeEnd f))
            then js_filter (\<lambda>it. isTimeInRange (departureTime it)
                                   (JString (depTimeStart f)) (JString (depTimeEnd f)) False)
                   currentResults
            else Inr currentResults) of
        Inl e \<Rightarrow> Inl e
      | Inr filtered1 \<Rightarrow>
          (case (if \<not> falsy (JString (arrTimeStart f)) \<and> \<not> falsy (JString (arrTimeEnd f))
                 then js_filter (\<lambda>it. isArrivalTimeInRange (departureTime it) (arrivalTime it)
                                        (JString (arrTimeStart f)) (JString (arrTimeEnd f)))
                        filtered1
                 else Inr filtered1) of
             Inl e \<Rightarrow> Inl e
           | Inr filtered2 \<Rightarrow>
               (if unitedOnly f then js_filter (unitedOnlyCallback currentMode) filtered2
                else Inr filtered2)))"

text \<open>
  The state \<^verbatim>\<open>applyFilters\<close> works on, and the function itself. With no current results
  it returns at once. An exception of a filter callback leaves the state as it was. Once
  the filtered list is stored, the function sorts a copy (in offers mode) and renders the
  cards into the document; that part reads the mode and the stored list, may throw, and
  is the parameter \<open>present\<close> (\<open>None\<close> when it completes). The result is the state after
  the call and the exception, if one was thrown.
\<close>

record state =
  currentMode :: mode
  currentResults :: "item list"
  filteredResults :: "item list"

definition applyFilters ::
  "(mode \<Rightarrow> item list \<Rightarrow> error option) \<Rightarrow> filters \<Rightarrow> state \<Rightarrow> state \<times> error option" where
  "applyFilters present f st =
     (if length (currentResults st) = 0 then (st, None)
      else case filterResults f (currentMode st) (currentResults st) of
             Inl e \<Rightarrow> (st, Some e)
           | Inr filtered \<Rightarrow>
               (st\<lparr>filteredResults := filtered\<rparr>, present (currentMode st) filtered))"

section \<open>The inputs the properties range over\<close>

text \<open>
  The specification speaks of well-formed \<^verbatim>\<open>HH:MM\<close> strings (two decimal digits, a
  colon, two decimal digits), of valid ones (hour at most 23, minute at most 59) and of
  strings with a non-numeric component. These predicates name those inputs; the hour and
  minute of a well-formed string are read off its digits.
\<close>

definition digit :: "char \<Rightarrow> nat" where
  "digit c = of_char c - 48"

definition well_formed :: "string \<Rightarrow> bool" where
  "well_formed t =
     (length t = 5 \<and> isDecimalDigit (t ! 0) \<and> isDecimalDigit (t ! 1) \<and> t ! 2 = CHR '':''
      \<and> isDecimalDigit (t ! 3) \<and> isDecimalDigit (t ! 4))"

definition clock_hours :: "string \<Rightarrow> nat" where
  "clock_hours t = 10 * digit (t ! 0) + digit (t ! 1)"

definition clock_minutes :: "string \<Rightarrow> nat" where
  "clock_minutes t = 10 * digit (t ! 3) + digit (t ! 4)"

text \<open>The minute of the day a well-formed string writes: \<open>HH * 60 + MM\<close>.\<close>

definition minute_of_day :: "string \<Rightarrow> nat" where
  "minute_of_day t = clock_hours t * 60 + clock_minutes t"

definition valid_time :: "string \<Rightarrow> bool" where
  "valid_time t = (well_formed t \<and> clock_hours t \<le> 23 \<and> clock_minutes t \<le> 59)"

text \<open>
  A component is non-numeric when the value \<^verbatim>\<open>timeToMinutes\<close> destructures for the hours or
  for the minutes is \<open>NaN\<close> under \<^verbatim>\<open>isNaN\<close> (a missing minutes part included).
\<close>

definition nonNumericComponent :: "string \<Rightarrow> bool" where
  "nonNumericComponent time =
     (case destructure2 (map Number_str (js_split CHR '':'' time)) of
        (hours, minutes) \<Rightarrow> isNaN hours \<or> isNaN minutes)"

text \<open>A result whose two times are strings, as the normalised records of the data service are.\<close>

definition string_times :: "item \<Rightarrow> bool" where
  "string_times it = (\<not> typeof_not_string (departureTime it) \<and> \<not> typeof_not_string (arrivalTime it))"

section \<open>Facts about rounding\<close>

text \<open>
  The exponent brackets every positive rational between two consecutive powers of two,
  and the rounded integer is within one half of its argument.
\<close>

lemma pow2_power_int: "pow2 k = power_int 2 k"
  by (simp add: pow2_def power_int_def field_simps)

lemma pow2_pos [simp]: "0 < pow2 k"
  by (simp add: pow2_def)

lemma pow2_diff: "pow2 (x - y) = pow2 x / pow2 y"
  by (simp add: pow2_power_int power_int_diff)

lemma pow2_nat: "0 \<le> k \<Longrightarrow> pow2 k = 2 ^ nat k"
  by (simp add: pow2_def)

lemma binade_bounds:
  assumes "0 < q"
  shows "pow2 (binade q) \<le> q" and "q < pow2 (binade q + 1)"
proof -
  obtain a b where ab: "quotient_of q = (a, b)" by (cases "quotient_of q")
  then have b: "0 < b" and q: "q = of_int a / of_int b"
    using quotient_of_denom_pos[OF ab] quotient_of_div[OF ab] by simp_all
  with assms have a: "0 < a"
    by (simp add: zero_less_divide_iff)
  define d where "d = bitlen a - bitlen b"
  have la: "(2::rat) ^ nat (bitlen a - 1) \<le> of_int a" and ua: "of_int a < (2::rat) ^ nat (bitlen a)"
    using bitlen_bounds[OF a]
    by (metis of_int_le_iff of_int_numeral of_int_power, metis of_int_less_iff of_int_numeral of_int_power)
  have lb: "(2::rat) ^ nat (bitlen b - 1) \<le> of_int b" and ub: "of_int b < (2::rat) ^ nat (bitlen b)"
    using bitlen_bounds[OF b]
    by (metis of_int_le_iff of_int_numeral of_int_power, metis of_int_less_iff of_int_numeral of_int_power)
  have ka: "1 \<le> bitlen a" and kb: "1 \<le> bitlen b"
    using a b bitlen_eq_zero_iff[of a] bitlen_eq_zero_iff[of b] bitlen_nonneg[of a] bitlen_nonneg[of b]
    by linarith+
  have lo: "pow2 (d - 1) \<le> q"
  proof -
    have "pow2 (d - 1) = pow2 (bitlen a - 1) / pow2 (bitlen b)"
      by (simp add: d_def pow2_diff[symmetric] algebra_simps)
    also have "\<dots> = 2 ^ nat (bitlen a - 1) / 2 ^ nat (bitlen b)"
      using ka kb by (simp add: pow2_nat)
    also have "\<dots> \<le> of_int a / of_int b"
      using la ub a b by (intro frac_le) simp_all
    finally show ?thesis by (simp add: q)
  qed
  have hi: "q < pow2 (d + 1)"
  proof -
    have "(of_int a :: rat) / of_int b < 2 ^ nat (bitlen a) / 2 ^ nat (bitlen b - 1)"
      using ua lb a b by (intro frac_less) simp_all
    also have "\<dots> = pow2 (bitlen a) / pow2 (bitlen b - 1)"
      using ka kb by (simp add: pow2_nat)
    also have "\<dots> = pow2 (d + 1)"
      by (simp add: d_def pow2_diff[symmetric] algebra_simps)
    finally show ?thesis by (simp add: q)
  qed
  have e: "binade q = (if pow2 d \<le> q then d else d - 1)"
    by (simp add: binade_def ab d_def Let_def)
  show "pow2 (binade q) \<le> q"
    using lo by (simp add: e)
  show "q < pow2 (binade q + 1)"
    using hi by (auto simp: e)
qed

lemma roundHalfEven_nearest: "\<bar>of_int (roundHalfEven x) - x\<bar> \<le> 1 / 2"
proof -
  have "of_int \<lfloor>x\<rfloor> \<le> x" "x < of_int \<lfloor>x\<rfloor> + 1"
    by linarith+
  then show ?thesis
    by (auto simp: roundHalfEven_def Let_def)
qed

lemma roundHalfEven_of_int [simp]: "roundHalfEven (of_int m) = m"
  by (simp add: roundHalfEven_def)

lemma binade_of_int:
  assumes "0 < n"
  shows "binade (of_int n) = bitlen n - 1"
proof -
  from assms have b: "1 \<le> bitlen n"
    using bitlen_eq_zero_iff[of n] bitlen_nonneg[of n] by linarith
  have "(2::int) ^ nat (bitlen n - 1) \<le> n"
    using bitlen_bounds[OF assms] ..
  then have "(of_int ((2::int) ^ nat (bitlen n - 1)) :: rat) \<le> of_int n"
    by (simp only: of_int_le_iff)
  then have "pow2 (bitlen n - 1) \<le> of_int n"
    using b by (simp add: pow2_def)
  moreover have "bitlen 1 = 1"
    by (simp add: bitlen_alt_def)
  ultimately show ?thesis
    by (simp add: binade_def)
qed

lemma bitlen_less_53:
  assumes "0 < n" "n < 2 ^ 53"
  shows "bitlen n \<le> 53"
proof -
  have "(2::int) ^ nat (bitlen n - 1) \<le> n"
    using bitlen_bounds[OF assms(1)] ..
  with assms(2) have "(2::int) ^ nat (bitlen n - 1) < 2 ^ 53" by linarith
  then have "nat (bitlen n - 1) < 53"
    by (simp only: power_strict_increasing_iff one_less_numeral_iff semiring_norm)
  then show ?thesis by linarith
qed

lemma roundToDouble_pos_int:
  assumes "0 < n" "n < 2 ^ 53"
  shows "roundToDouble (of_int n) = Num (of_int n)"
    and "roundToDouble (- of_int n) = Num (- of_int n)"
proof -
  define i where "i = nat (53 - bitlen n)"
  have b: "1 \<le> bitlen n" "bitlen n \<le> 53"
    using assms bitlen_eq_zero_iff[of n] bitlen_nonneg[of n] bitlen_less_53 by (linarith, simp)
  have j: "max (binade (of_int n)) (- 1022) - 52 = - int i"
    using b by (simp add: binade_of_int[OF assms(1)] i_def)
  have p: "pow2 (- int i) = 1 / 2 ^ i"
    by (simp add: pow2_def)
  have q: "(of_int n :: rat) / (1 / 2 ^ i) = of_int (n * 2 ^ i)"
    by simp
  have v: "of_int (roundHalfEven (of_int n / pow2 (- int i))) * pow2 (- int i) = (of_int n :: rat)"
    unfolding p q roundHalfEven_of_int by simp
  have "(of_int n :: rat) < of_int (2 ^ 53)"
    using assms(2) by (simp only: of_int_less_iff)
  also have "\<dots> \<le> 2 ^ 1024" by simp
  finally have o: "\<not> pow2 1024 \<le> (of_int n :: rat)"
    by (simp add: pow2_def)
  have nz: "(of_int n :: rat) \<noteq> 0" "(0::rat) < of_int n"
    using assms(1) by simp_all
  show "roundToDouble (of_int n) = Num (of_int n)"
    using nz o by (simp add: roundToDouble_def Let_def j v)
  show "roundToDouble (- of_int n) = Num (- of_int n)"
    using nz o by (simp add: roundToDouble_def Let_def j v)
qed

lemma roundToDouble_int:
  assumes "\<bar>k\<bar> < 2 ^ 53"
  shows "roundToDouble (of_int k) = Num (of_int k)"
proof (cases "k = 0")
  case True
  then show ?thesis by (simp add: roundToDouble_def)
next
  case False
  show ?thesis
  proof (cases "0 < k")
    case True
    with assms show ?thesis by (simp add: roundToDouble_pos_int(1))
  next
    case neg: False
    with False assms have "0 < - k" "- k < 2 ^ 53" by simp_all
    then have "roundToDouble (- of_int (- k)) = Num (- of_int (- k))"
      by (rule roundToDouble_pos_int(2))
    then show ?thesis by simp
  qed
qed

lemma roundToDouble_not_NaN [simp]: "roundToDouble q \<noteq> NaN"
  by (simp add: roundToDouble_def Let_def)

lemma js_mul_int:
  assumes "\<bar>a * b\<bar> < 2 ^ 53"
  shows "js_mul (Num (of_int a)) (Num (of_int b)) = Num (of_int (a * b))"
proof -
  have "js_mul (Num (of_int a)) (Num (of_int b)) = roundToDouble (of_int (a * b))"
    by simp
  with assms show ?thesis
    by (simp only: roundToDouble_int)
qed

lemma js_add_int:
  assumes "\<bar>a + b\<bar> < 2 ^ 53"
  shows "js_add (Num (of_int a)) (Num (of_int b)) = Num (of_int (a + b))"
proof -
  have "js_add (Num (of_int a)) (Num (of_int b)) = roundToDouble (of_int (a + b))"
    by simp
  with assms show ?thesis
    by (simp only: roundToDouble_int)
qed

lemma roundToDouble_nat:
  assumes "n < 2 ^ 53"
  shows "roundToDouble (of_nat n) = Num (of_nat n)"
proof -
  from assms have "\<bar>int n\<bar> < 2 ^ 53" by simp
  then have "roundToDouble (of_int (int n)) = Num (of_int (int n))"
    by (rule roundToDouble_int)
  then show ?thesis by simp
qed

lemma js_mul_nat:
  assumes "a * b < 2 ^ 53"
  shows "js_mul (Num (of_nat a)) (Num (of_nat b)) = Num (of_nat (a * b))"
proof -
  have "js_mul (Num (of_nat a)) (Num (of_nat b)) = roundToDouble (of_nat (a * b))"
    by simp
  with assms show ?thesis
    by (simp only: roundToDouble_nat)
qed

lemma js_add_nat:
  assumes "a + b < 2 ^ 53"
  shows "js_add (Num (of_nat a)) (Num (of_nat b)) = Num (of_nat (a + b))"
proof -
  have "js_add (Num (of_nat a)) (Num (of_nat b)) = roundToDouble (of_nat (a + b))"
    by simp
  with assms show ?thesis
    by (simp only: roundToDouble_nat)
qed

section \<open>Facts about numbers, digits, conversion and splitting\<close>

lemma js_mul_NaN_right [simp]: "js_mul x NaN = NaN"
  by (cases x) simp_all

lemma js_add_NaN_right [simp]: "js_add x NaN = NaN"
  by (cases x) simp_all

lemma js_le_NaN_right [simp]: "js_le x NaN = False"
  by (cases x) simp_all

lemma js_lt_NaN_right [simp]: "js_lt x NaN = False"
  by (cases x) simp_all




lemma isDecimalDigit_range:
  "isDecimalDigit c \<longleftrightarrow> 48 \<le> (of_char c :: nat) \<and> (of_char c :: nat) \<le> 57"
  by (auto simp: isDecimalDigit_def digitValue_def Let_def split: option.splits if_splits)

lemma digitValue_decimal: "isDecimalDigit c \<Longrightarrow> digitValue 10 c = Some (digit c)"
  by (auto simp: isDecimalDigit_def digitValue_def digit_def Let_def split: option.splits if_splits)

lemma digit_less_10: "isDecimalDigit c \<Longrightarrow> digit c < 10"
  by (auto simp: isDecimalDigit_range digit_def)

lemma digit_inject:
  assumes "isDecimalDigit a" "isDecimalDigit b" "digit a = digit b"
  shows "a = b"
proof -
  have "(of_char a :: nat) = of_char b"
    using assms unfolding isDecimalDigit_range digit_def by arith
  then show ?thesis by simp
qed

lemma digit_not_space: "isDecimalDigit c \<Longrightarrow> \<not> isStrWhiteSpaceChar c"
  by (auto simp: isStrWhiteSpaceChar_def isDecimalDigit_range)

lemma digit_not_special:
  assumes "isDecimalDigit c"
  shows "c \<noteq> CHR ''+''" "c \<noteq> CHR ''-''" "c \<noteq> CHR ''x''" "c \<noteq> CHR ''X''" "c \<noteq> CHR ''o''"
    "c \<noteq> CHR ''O''" "c \<noteq> CHR ''b''" "c \<noteq> CHR ''B''" "c \<noteq> CHR '':''" "c \<noteq> CHR ''I''"
  using assms by (auto simp: isDecimalDigit_range)

lemma Number_str_two_digits:
  assumes "isDecimalDigit a" "isDecimalDigit b"
  shows "Number_str [a, b] = Num (of_nat (10 * digit a + digit b))"
proof -
  have t: "trimString [a, b] = [a, b]"
    using assms by (simp add: trimString_def digit_not_space)
  have "digit a < 10" "digit b < 10"
    using assms by (simp_all add: digit_less_10)
  then have "10 * digit a + digit b < 2 ^ 53" by simp
  then have r: "roundToDouble (of_nat (10 * digit a + digit b)) = Num (of_nat (10 * digit a + digit b))"
    by (rule roundToDouble_nat)
  have "Number_str [a, b] = roundToDouble (of_nat (10 * digit a + digit b))"
    using assms digit_not_special[OF assms(1)] digit_not_special[OF assms(2)]
    by (simp add: Number_str_def t strDecimalLiteral_def strUnsignedDecimalLiteral_def
        digitValue_decimal pow10_def mult.commute del: of_nat_add of_nat_mult)
  with r show ?thesis by simp
qed

lemma well_formed_shape:
  assumes "well_formed t"
  obtains h1 h0 m1 m0 where "t = [h1, h0, CHR '':'', m1, m0]"
    "isDecimalDigit h1" "isDecimalDigit h0" "isDecimalDigit m1" "isDecimalDigit m0"
proof -
  from assms have len: "length t = 5" by (simp add: well_formed_def)
  then obtain a b c d e where t: "t = [a, b, c, d, e]"
    by (auto simp: length_Suc_conv eval_nat_numeral)
  with assms show ?thesis
    by (intro that[of a b d e]) (simp_all add: well_formed_def)
qed

lemma clock_bounds:
  assumes "well_formed t"
  shows "clock_hours t < 100" "clock_minutes t < 100"
proof -
  from assms obtain h1 h0 m1 m0 where t: "t = [h1, h0, CHR '':'', m1, m0]"
    and d: "isDecimalDigit h1" "isDecimalDigit h0" "isDecimalDigit m1" "isDecimalDigit m0"
    by (rule well_formed_shape)
  from d[THEN digit_less_10] show "clock_hours t < 100" "clock_minutes t < 100"
    by (simp_all add: t clock_hours_def clock_minutes_def)
qed

lemma timeToMinutes_well_formed:
  assumes "well_formed t"
  shows "timeToMinutes (JString t) = Inr (Num (of_nat (clock_hours t * 60 + clock_minutes t)))"
proof -
  from assms obtain h1 h0 m1 m0 where t: "t = [h1, h0, CHR '':'', m1, m0]"
    and d: "isDecimalDigit h1" "isDecimalDigit h0" "isDecimalDigit m1" "isDecimalDigit m0"
    by (rule well_formed_shape)
  have sp: "js_split CHR '':'' [h1, h0, CHR '':'', m1, m0] = [[h1, h0], [m1, m0]]"
    using d[THEN digit_not_special(9)] by simp
  have b: "clock_hours t * 60 < 2 ^ 53" "clock_hours t * 60 + clock_minutes t < 2 ^ 53"
    using clock_bounds[OF assms] by simp_all
  have "timeToMinutes (JString t) =
      Inr (js_add (js_mul (Num (of_nat (clock_hours t))) (Num (of_nat 60)))
             (Num (of_nat (clock_minutes t))))"
    unfolding t timeToMinutes_def split_colon.simps sp
    by (simp add: Number_str_two_digits d clock_hours_def clock_minutes_def
        del: of_nat_add of_nat_mult js_mul.simps js_add.simps)
  then show ?thesis
    by (simp only: js_mul_nat[OF b(1)] js_add_nat[OF b(2)])
qed

lemma isOvernightFlight_timeToMinutes:
  "isOvernightFlight d a =
     (case timeToMinutes d of Inl e \<Rightarrow> Inl e
      | Inr dm \<Rightarrow> (case timeToMinutes a of Inl e \<Rightarrow> Inl e | Inr am \<Rightarrow> Inr (js_lt am dm)))"
  by (simp add: isOvernightFlight_def timeToMinutes_def Let_def split: sum.splits prod.splits)

lemma timeToMinutes_string: "\<exists>n. timeToMinutes (JString s) = Inr n"
  by (simp add: timeToMinutes_def split: prod.splits)

section \<open>Facts about the time-window functions\<close>

lemma isTimeInRange_minutes:
  assumes "time \<noteq> []" "s \<noteq> []" "e \<noteq> []"
    "timeToMinutes (JString time) = Inr tm" "timeToMinutes (JString s) = Inr sm"
    "timeToMinutes (JString e) = Inr em"
  shows "isTimeInRange (JString time) (JString s) (JString e) b =
     Inr (if js_le sm em then js_ge tm sm \<and> js_le tm em else js_ge tm sm \<or> js_le tm em)"
  using assms by (simp add: isTimeInRange_def)

lemma isTimeInRange_strings_total:
  "\<exists>b. isTimeInRange (JString t) (JString s) (JString e) allowNextDay = Inr b"
proof -
  obtain tm sm em where "timeToMinutes (JString t) = Inr tm" "timeToMinutes (JString s) = Inr sm"
    "timeToMinutes (JString e) = Inr em"
    using timeToMinutes_string by blast
  then show ?thesis by (auto simp: isTimeInRange_def)
qed

lemma isArrivalTimeInRange_strings:
  "isArrivalTimeInRange (JString d) (JString a) (JString s) (JString e)
     = isTimeInRange (JString a) (JString s) (JString e) False"
proof -
  obtain dm am where "timeToMinutes (JString d) = Inr dm" "timeToMinutes (JString a) = Inr am"
    using timeToMinutes_string by blast
  then have "\<exists>b. isOvernightFlight (JString d) (JString a) = Inr b"
    by (simp add: isOvernightFlight_timeToMinutes)
  then show ?thesis
    by (auto simp: isArrivalTimeInRange_def isTimeInRange_def)
qed


lemma timeToMinutes_nonNumeric:
  assumes "nonNumericComponent time"
  shows "timeToMinutes (JString time) = Inr NaN"
proof -
  obtain hours minutes where
    d: "destructure2 (map Number_str (js_split CHR '':'' time)) = (hours, minutes)"
    by (cases "destructure2 (map Number_str (js_split CHR '':'' time))")
  from assms d have "toNumber hours = NaN \<or> toNumber minutes = NaN"
    by (simp add: nonNumericComponent_def isNaN_def)
  then have "js_add (js_mul (toNumber hours) (Num 60)) (toNumber minutes) = NaN"
    by auto
  then show ?thesis
    by (simp add: timeToMinutes_def d)
qed

lemma two_digits_inject:
  assumes "10 * digit a + digit b = 10 * digit a' + digit b'"
    "isDecimalDigit a" "isDecimalDigit b" "isDecimalDigit a'" "isDecimalDigit b'"
  shows "a = a' \<and> b = b'"
proof -
  have lt: "digit b < 10" "digit b' < 10"
    using assms(3,5) by (simp_all add: digit_less_10)
  have "(10 * digit a + digit b) div 10 = digit a" "(10 * digit a' + digit b') div 10 = digit a'"
    using lt by simp_all
  with assms(1) have a: "digit a = digit a'"
    by simp
  with assms(1) have b: "digit b = digit b'"
    by simp
  from a b assms(2-5) show ?thesis
    by (simp add: digit_inject)
qed

lemma well_formed_eqI:
  assumes "well_formed t" "well_formed u" "clock_hours t = clock_hours u"
    "clock_minutes t = clock_minutes u"
  shows "t = u"
proof -
  from assms(1) obtain h1 h0 m1 m0 where t: "t = [h1, h0, CHR '':'', m1, m0]"
    and d: "isDecimalDigit h1" "isDecimalDigit h0" "isDecimalDigit m1" "isDecimalDigit m0"
    by (rule well_formed_shape)
  from assms(2) obtain k1 k0 n1 n0 where u: "u = [k1, k0, CHR '':'', n1, n0]"
    and e: "isDecimalDigit k1" "isDecimalDigit k0" "isDecimalDigit n1" "isDecimalDigit n0"
    by (rule well_formed_shape)
  have "10 * digit h1 + digit h0 = 10 * digit k1 + digit k0"
    using assms(3) by (simp add: t u clock_hours_def)
  then have h: "h1 = k1 \<and> h0 = k0"
    using d(1,2) e(1,2) by (rule two_digits_inject)
  have "10 * digit m1 + digit m0 = 10 * digit n1 + digit n0"
    using assms(4) by (simp add: t u clock_minutes_def)
  then have m: "m1 = n1 \<and> m0 = n0"
    using d(3,4) e(3,4) by (rule two_digits_inject)
  from h m show ?thesis by (simp add: t u)
qed



section \<open>Facts about filtering\<close>

lemma js_filter_Inr:
  "js_filter p xs = Inr ys \<Longrightarrow> set ys \<subseteq> set xs \<and> (\<forall>y\<in>set ys. p y = Inr True)"
proof (induction xs arbitrary: ys)
  case Nil
  then show ?case by simp
next
  case (Cons x xs)
  from Cons.prems obtain b zs where px: "p x = Inr b" and r: "js_filter p xs = Inr zs"
    and ys: "ys = (if b then x # zs else zs)"
    by (auto split: sum.splits)
  from Cons.IH[OF r] px ys show ?case by auto
qed

lemma js_filter_all_true:
  "\<forall>y\<in>set ys. p y = Inr True \<Longrightarrow> js_filter p ys = Inr ys"
  by (induction ys) simp_all

lemma js_filter_total:
  "\<forall>x\<in>set xs. \<exists>b. p x = Inr b \<Longrightarrow> \<exists>ys. js_filter p xs = Inr ys"
proof (induction xs)
  case Nil
  then show ?case by simp
next
  case (Cons x xs)
  then obtain b ys where "p x = Inr b" "js_filter p xs = Inr ys" by auto
  then show ?case by simp
qed

lemma string_timesD:
  assumes "string_times it"
  obtains d a where "departureTime it = JString d" "arrivalTime it = JString a"
proof -
  from assms have "\<not> typeof_not_string (departureTime it)" "\<not> typeof_not_string (arrivalTime it)"
    by (simp_all add: string_times_def)
  then show ?thesis
    by (cases "departureTime it"; cases "arrivalTime it") (auto intro: that)
qed

lemma filterResults_idem:
  assumes "filterResults f md xs = Inr ys"
  shows "filterResults f md ys = Inr ys"
proof -
  let ?c1 = "\<not> falsy (JString (depTimeStart f)) \<and> \<not> falsy (JString (depTimeEnd f))"
  let ?p1 = "\<lambda>it. isTimeInRange (departureTime it)
                (JString (depTimeStart f)) (JString (depTimeEnd f)) False"
  let ?c2 = "\<not> falsy (JString (arrTimeStart f)) \<and> \<not> falsy (JString (arrTimeEnd f))"
  let ?p2 = "\<lambda>it. isArrivalTimeInRange (departureTime it) (arrivalTime it)
                (JString (arrTimeStart f)) (JString (arrTimeEnd f))"
  let ?p3 = "unitedOnlyCallback md"
  from assms obtain f1 f2 where
    s1: "(if ?c1 then js_filter ?p1 xs else Inr xs) = Inr f1" and
    s2: "(if ?c2 then js_filter ?p2 f1 else Inr f1) = Inr f2" and
    s3: "(if unitedOnly f then js_filter ?p3 f2 else Inr f2) = Inr ys"
    unfolding filterResults_def by (auto split: sum.splits)
  from s3 have y3: "set ys \<subseteq> set f2" "unitedOnly f \<longrightarrow> (\<forall>y\<in>set ys. ?p3 y = Inr True)"
    using js_filter_Inr[of ?p3 f2 ys] by (auto split: if_splits)
  from s2 have y2: "set f2 \<subseteq> set f1" "?c2 \<longrightarrow> (\<forall>y\<in>set f2. ?p2 y = Inr True)"
    using js_filter_Inr[of ?p2 f1 f2] by (auto split: if_splits)
  from s1 have y1: "?c1 \<longrightarrow> (\<forall>y\<in>set f1. ?p1 y = Inr True)"
    using js_filter_Inr[of ?p1 xs f1] by (auto split: if_splits)
  have t1: "(if ?c1 then js_filter ?p1 ys else Inr ys) = Inr ys"
    using y1 y2(1) y3(1) by (auto intro!: js_filter_all_true)
  have t2: "(if ?c2 then js_filter ?p2 ys else Inr ys) = Inr ys"
    using y2(2) y3(1) by (auto intro!: js_filter_all_true)
  have t3: "(if unitedOnly f then js_filter ?p3 ys else Inr ys) = Inr ys"
    using y3(2) by (auto intro!: js_filter_all_true)
  show ?thesis
    unfolding filterResults_def t1 sum.case t2 t3 ..
qed

lemma filterResults_total:
  assumes "\<forall>it\<in>set xs. string_times it"
  shows "\<exists>ys. filterResults f md xs = Inr ys"
proof -
  let ?c1 = "\<not> falsy (JString (depTimeStart f)) \<and> \<not> falsy (JString (depTimeEnd f))"
  let ?p1 = "\<lambda>it. isTimeInRange (departureTime it)
                (JString (depTimeStart f)) (JString (depTimeEnd f)) False"
  let ?c2 = "\<not> falsy (JString (arrTimeStart f)) \<and> \<not> falsy (JString (arrTimeEnd f))"
  let ?p2 = "\<lambda>it. isArrivalTimeInRange (departureTime it) (arrivalTime it)
                (JString (arrTimeStart f)) (JString (arrTimeEnd f))"
  let ?p3 = "unitedOnlyCallback md"
  have p1: "\<exists>b. ?p1 it = Inr b" if "string_times it" for it
    using that isTimeInRange_strings_total by (elim string_timesD) simp
  have p2: "\<exists>b. ?p2 it = Inr b" if "string_times it" for it
    using that isTimeInRange_strings_total
    by (elim string_timesD) (simp add: isArrivalTimeInRange_strings)
  have p3: "\<exists>b. ?p3 it = Inr b" for it
    by (auto simp: unitedOnlyCallback_def split: option.splits)
  obtain f1 where s1: "(if ?c1 then js_filter ?p1 xs else Inr xs) = Inr f1"
    using js_filter_total[of xs ?p1] assms p1 by (cases ?c1) auto
  then have "set f1 \<subseteq> set xs"
    using js_filter_Inr[of ?p1 xs f1] by (auto split: if_splits)
  with assms have a1: "\<forall>it\<in>set f1. string_times it" by blast
  obtain f2 where s2: "(if ?c2 then js_filter ?p2 f1 else Inr f1) = Inr f2"
    using js_filter_total[of f1 ?p2] a1 p2 by (cases ?c2) auto
  obtain f3 where s3: "(if unitedOnly f then js_filter ?p3 f2 else Inr f2) = Inr f3"
    using js_filter_total[of f2 ?p3] p3 by (cases "unitedOnly f") auto
  have "filterResults f md xs = Inr f3"
    unfolding filterResults_def s1 sum.case s2 s3 ..
  then show ?thesis ..
qed

lemma applyFilters_again:
  assumes "applyFilters present f st = (st', None)" "currentResults st \<noteq> []"
  shows "applyFilters present f (st'\<lparr>currentResults := filteredResults st'\<rparr>)
    = (st'\<lparr>currentResults := filteredResults st'\<rparr>, None)"
proof -
  from assms obtain ys where r: "filterResults f (currentMode st) (currentResults st) = Inr ys"
    and st': "st' = st\<lparr>filteredResults := ys\<rparr>"
    and p: "present (currentMode st) ys = None"
    by (auto simp: applyFilters_def split: sum.splits)
  from r have "filterResults f (currentMode st) ys = Inr ys"
    by (rule filterResults_idem)
  with p show ?thesis
    by (simp add: applyFilters_def st')
qed





section \<open>Evaluation on literals\<close>

text \<open>
  The unfolding rules that evaluate the functions on a literal input; an integer below
  \<open>2^53\<close> is its own rounding.
\<close>

lemma roundToDouble_numeral:
  assumes "(numeral k :: int) < 2 ^ 53"
  shows "roundToDouble (numeral k) = Num (numeral k)"
    and "roundToDouble (- numeral k) = Num (- numeral k)"
proof -
  have "roundToDouble (of_int (numeral k)) = Num (of_int (numeral k))"
    using assms by (intro roundToDouble_int) simp
  then show "roundToDouble (numeral k) = Num (numeral k)" by simp
  have "roundToDouble (of_int (- numeral k)) = Num (of_int (- numeral k))"
    using assms by (intro roundToDouble_int) simp
  then show "roundToDouble (- numeral k) = Num (- numeral k)" by simp
qed

lemma roundToDouble_0_1: "roundToDouble 0 = Num 0" "roundToDouble 1 = Num 1" "roundToDouble (- 1) = Num (- 1)"
  using roundToDouble_int[of 0] roundToDouble_int[of 1] roundToDouble_int[of "- 1"] by simp_all

lemmas js_eval =
  timeToMinutes_def isOvernightFlight_def isTimeInRange_def isArrivalTimeInRange_def
  isValidTimeRange_def app_timeToMinutes_def Number_str_def trimString_def
  isStrWhiteSpaceChar_def strDecimalLiteral_def strUnsignedDecimalLiteral_def
  nonDecimalIntegerLiteral_def signedInteger_def isDecimalDigit_def digitValue_def pow10_def
  js_neg_def js_ge_def js_gt_def isNaN_def roundToDouble_numeral roundToDouble_0_1

section \<open>The properties of the specification\<close>

subsection \<open>The arrival filter delegates to the range test\<close>

text \<open>
  C1. For every departure, arrival and pair of filter bounds given as strings,
  \<^verbatim>\<open>isArrivalTimeInRange\<close> returns exactly what the three-argument call
  \<^verbatim>\<open>isTimeInRange(arrival, filterStart, filterEnd)\<close> returns: the overnight classification
  only selects the value of a parameter that \<^verbatim>\<open>isTimeInRange\<close> never reads. The
  flight leaving at 23:00 and landing at 01:00 passes the filter 00:00 to 02:00.
\<close>

theorem isArrivalTimeInRange_delegates:
  "isArrivalTimeInRange (JString departure) (JString arrival) (JString filterStart) (JString filterEnd)
     = isTimeInRange (JString arrival) (JString filterStart) (JString filterEnd) False
   \<and> isArrivalTimeInRange (JString ''23:00'') (JString ''01:00'') (JString ''00:00'') (JString ''02:00'')
     = Inr True"
proof
  show "isArrivalTimeInRange (JString departure) (JString arrival) (JString filterStart) (JString filterEnd)
     = isTimeInRange (JString arrival) (JString filterStart) (JString filterEnd) False"
    by (rule isArrivalTimeInRange_strings)
  show "isArrivalTimeInRange (JString ''23:00'') (JString ''01:00'') (JString ''00:00'') (JString ''02:00'')
     = Inr True"
    by (simp add: js_eval)
qed

subsection \<open>Membership in a closed, possibly wrapping range\<close>

text \<open>
  C2. For well-formed strings \<open>t\<close>, \<open>s\<close> and \<open>e\<close> the three conversions are the minutes
  of the day \<open>t'\<close>, \<open>s'\<close> and \<open>e'\<close> that the strings write (\<open>HH * 60 + MM\<close>). When
  \<open>s' \<le> e'\<close> the test is true exactly when \<open>s' \<le> t' \<le> e'\<close>; when \<open>s' > e'\<close> it is true
  exactly when \<open>t' \<ge> s'\<close> or \<open>t' \<le> e'\<close>; and at \<open>t' = s'\<close> and at \<open>t' = e'\<close> it is true in
  both cases.
\<close>

theorem isTimeInRange_closed_interval:
  assumes "well_formed t" "well_formed s" "well_formed e"
  shows "timeToMinutes (JString t) = Inr (Num (of_nat (minute_of_day t)))
    \<and> timeToMinutes (JString s) = Inr (Num (of_nat (minute_of_day s)))
    \<and> timeToMinutes (JString e) = Inr (Num (of_nat (minute_of_day e)))
    \<and> (minute_of_day s \<le> minute_of_day e \<longrightarrow>
         isTimeInRange (JString t) (JString s) (JString e) allowNextDay
           = Inr (minute_of_day s \<le> minute_of_day t \<and> minute_of_day t \<le> minute_of_day e))
    \<and> (minute_of_day e < minute_of_day s \<longrightarrow>
         isTimeInRange (JString t) (JString s) (JString e) allowNextDay
           = Inr (minute_of_day s \<le> minute_of_day t \<or> minute_of_day t \<le> minute_of_day e))
    \<and> (minute_of_day t = minute_of_day s \<or> minute_of_day t = minute_of_day e \<longrightarrow>
         isTimeInRange (JString t) (JString s) (JString e) allowNextDay = Inr True)"
proof -
  have ne: "t \<noteq> []" "s \<noteq> []" "e \<noteq> []"
    using assms by (auto simp: well_formed_def)
  have tm: "timeToMinutes (JString t) = Inr (Num (of_nat (minute_of_day t)))"
    "timeToMinutes (JString s) = Inr (Num (of_nat (minute_of_day s)))"
    "timeToMinutes (JString e) = Inr (Num (of_nat (minute_of_day e)))"
    using assms by (simp_all only: timeToMinutes_well_formed minute_of_day_def)
  have r: "isTimeInRange (JString t) (JString s) (JString e) allowNextDay =
      Inr (if minute_of_day s \<le> minute_of_day e
           then minute_of_day s \<le> minute_of_day t \<and> minute_of_day t \<le> minute_of_day e
           else minute_of_day s \<le> minute_of_day t \<or> minute_of_day t \<le> minute_of_day e)"
    unfolding isTimeInRange_minutes[OF ne tm] js_ge_def js_le.simps of_nat_le_iff ..
  have "(minute_of_day s \<le> minute_of_day e \<longrightarrow>
         isTimeInRange (JString t) (JString s) (JString e) allowNextDay
           = Inr (minute_of_day s \<le> minute_of_day t \<and> minute_of_day t \<le> minute_of_day e))
    \<and> (minute_of_day e < minute_of_day s \<longrightarrow>
         isTimeInRange (JString t) (JString s) (JString e) allowNextDay
           = Inr (minute_of_day s \<le> minute_of_day t \<or> minute_of_day t \<le> minute_of_day e))
    \<and> (minute_of_day t = minute_of_day s \<or> minute_of_day t = minute_of_day e \<longrightarrow>
         isTimeInRange (JString t) (JString s) (JString e) allowNextDay = Inr True)"
    unfolding r by auto
  with tm show ?thesis by simp
qed

theorem isTimeInRange_closed_interval_witness:
  "well_formed ''23:30'' \<and> well_formed ''12:00'' \<and> well_formed ''22:00'' \<and> well_formed ''06:00''
   \<and> timeToMinutes (JString ''23:30'') = Inr (Num 1410)
   \<and> isTimeInRange (JString ''23:30'') (JString ''22:00'') (JString ''06:00'') False = Inr True
   \<and> isTimeInRange (JString ''12:00'') (JString ''22:00'') (JString ''06:00'') False = Inr False
   \<and> isTimeInRange (JString ''12:00'') (JString ''06:00'') (JString ''22:00'') False = Inr True
   \<and> isTimeInRange (JString ''23:30'') (JString ''06:00'') (JString ''22:00'') False = Inr False"
proof -
  have w: "well_formed ''23:30''" "well_formed ''12:00''" "well_formed ''22:00''"
    "well_formed ''06:00''"
    by (simp_all add: well_formed_def isDecimalDigit_range)
  have m: "minute_of_day ''23:30'' = 1410" "minute_of_day ''12:00'' = 720"
    "minute_of_day ''22:00'' = 1320" "minute_of_day ''06:00'' = 360"
    by (simp_all add: minute_of_day_def clock_hours_def clock_minutes_def digit_def)
  have a: "timeToMinutes (JString ''23:30'') = Inr (Num 1410)"
    and b: "isTimeInRange (JString ''23:30'') (JString ''22:00'') (JString ''06:00'') False = Inr True"
    using isTimeInRange_closed_interval[OF w(1) w(3) w(4), of False] unfolding m by simp_all
  have c: "isTimeInRange (JString ''12:00'') (JString ''22:00'') (JString ''06:00'') False = Inr False"
    using isTimeInRange_closed_interval[OF w(2) w(3) w(4), of False] unfolding m by simp
  have d: "isTimeInRange (JString ''12:00'') (JString ''06:00'') (JString ''22:00'') False = Inr True"
    using isTimeInRange_closed_interval[OF w(2) w(4) w(3), of False] unfolding m by simp
  have e: "isTimeInRange (JString ''23:30'') (JString ''06:00'') (JString ''22:00'') False = Inr False"
    using isTimeInRange_closed_interval[OF w(1) w(4) w(3), of False] unfolding m by simp
  from w a b c d e show ?thesis by (intro conjI)
qed

subsection \<open>Overnight flights\<close>

text \<open>
  C3. For well-formed departure and arrival strings \<^verbatim>\<open>isOvernightFlight\<close> is true exactly
  when the arrival's minute value is strictly below the departure's; with equal minute
  values it is false.
\<close>

theorem isOvernightFlight_strict:
  assumes "well_formed departure" "well_formed arrival"
  shows "\<exists>d' a'.
      timeToMinutes (JString departure) = Inr (Num (of_nat d'))
    \<and> timeToMinutes (JString arrival) = Inr (Num (of_nat a'))
    \<and> isOvernightFlight (JString departure) (JString arrival) = Inr (a' < d')
    \<and> (a' = d' \<longrightarrow> isOvernightFlight (JString departure) (JString arrival) = Inr False)"
proof -
  let ?d = "clock_hours departure * 60 + clock_minutes departure"
  let ?a = "clock_hours arrival * 60 + clock_minutes arrival"
  have tm: "timeToMinutes (JString departure) = Inr (Num (of_nat ?d))"
    "timeToMinutes (JString arrival) = Inr (Num (of_nat ?a))"
    using assms by (simp_all only: timeToMinutes_well_formed)
  have r: "isOvernightFlight (JString departure) (JString arrival) = Inr (?a < ?d)"
    unfolding isOvernightFlight_timeToMinutes tm sum.case js_lt.simps of_nat_less_iff ..
  then have "?a = ?d \<longrightarrow> isOvernightFlight (JString departure) (JString arrival) = Inr False"
    by simp
  with tm r show ?thesis by blast
qed

theorem isOvernightFlight_strict_witness:
  "well_formed ''23:00'' \<and> well_formed ''01:00''
   \<and> isOvernightFlight (JString ''23:00'') (JString ''01:00'') = Inr True"
proof -
  have w: "well_formed ''23:00''" "well_formed ''01:00''"
    by (simp_all add: well_formed_def isDecimalDigit_range)
  have v: "timeToMinutes (JString ''23:00'') = Inr (Num 1380)"
    "timeToMinutes (JString ''01:00'') = Inr (Num 60)"
    by (simp_all add: js_eval)
  obtain d' a' where
    tm: "timeToMinutes (JString ''23:00'') = Inr (Num (of_nat d'))"
      "timeToMinutes (JString ''01:00'') = Inr (Num (of_nat a'))"
    and r: "isOvernightFlight (JString ''23:00'') (JString ''01:00'') = Inr (a' < d')"
    using isOvernightFlight_strict[OF w] by blast
  from tm[symmetric] have "d' = 1380" "a' = 60"
    unfolding v by (simp_all only: sum.inject jsnum.inject of_nat_eq_numeral_iff)
  with r have "isOvernightFlight (JString ''23:00'') (JString ''01:00'') = Inr True"
    by simp
  with w show ?thesis by simp
qed

subsection \<open>A malformed time matches no range\<close>

text \<open>
  C4. A non-empty time string with a non-numeric hour or minute component converts to
  \<open>NaN\<close>, and for well-formed bounds \<^verbatim>\<open>isTimeInRange\<close> returns \<^verbatim>\<open>false\<close> on it: a value,
  not an exception.
\<close>

theorem isTimeInRange_malformed_time:
  assumes "time \<noteq> []" "nonNumericComponent time" "well_formed s" "well_formed e"
  shows "timeToMinutes (JString time) = Inr NaN
    \<and> isTimeInRange (JString time) (JString s) (JString e) allowNextDay = Inr False"
proof -
  have tm: "timeToMinutes (JString time) = Inr NaN"
    using assms(2) by (rule timeToMinutes_nonNumeric)
  have ne: "s \<noteq> []" "e \<noteq> []"
    using assms(3,4) by (auto simp: well_formed_def)
  obtain sm em where b: "timeToMinutes (JString s) = Inr sm" "timeToMinutes (JString e) = Inr em"
    using timeToMinutes_string by blast
  have "isTimeInRange (JString time) (JString s) (JString e) allowNextDay = Inr False"
    unfolding isTimeInRange_minutes[OF assms(1) ne tm b] by (simp add: js_ge_def)
  with tm show ?thesis by simp
qed

theorem isTimeInRange_malformed_time_witness:
  "''ab:10'' \<noteq> [] \<and> nonNumericComponent ''ab:10'' \<and> well_formed ''09:00'' \<and> well_formed ''11:00''
   \<and> isTimeInRange (JString ''ab:10'') (JString ''09:00'') (JString ''11:00'') False = Inr False"
proof -
  have n: "''ab:10'' \<noteq> []" by simp
  have c: "nonNumericComponent ''ab:10''" by (simp add: nonNumericComponent_def js_eval)
  have w: "well_formed ''09:00''" "well_formed ''11:00''"
    by (simp_all add: well_formed_def isDecimalDigit_range)
  from isTimeInRange_malformed_time[OF n c w, of False] n c w show ?thesis by simp
qed

subsection \<open>An absent bound imposes no constraint\<close>

text \<open>
  C5. When the time or a bound is falsy (the empty string, \<^verbatim>\<open>undefined\<close> and \<^verbatim>\<open>null\<close>
  are) \<^verbatim>\<open>isTimeInRange\<close> returns \<^verbatim>\<open>true\<close>, and when the arrival or a filter bound is falsy
  \<^verbatim>\<open>isArrivalTimeInRange\<close> returns \<^verbatim>\<open>true\<close>, whatever the departure is. So
  \<^verbatim>\<open>isTimeInRange("12:00", "", "")\<close> and \<^verbatim>\<open>isArrivalTimeInRange("10:00", "11:00", "", "")\<close>
  are both \<^verbatim>\<open>true\<close>.
\<close>

theorem empty_bound_permissive:
  "(falsy time \<or> falsy startTime \<or> falsy endTime \<longrightarrow>
      isTimeInRange time startTime endTime allowNextDay = Inr True)
   \<and> (falsy arrival \<or> falsy filterStart \<or> falsy filterEnd \<longrightarrow>
      isArrivalTimeInRange departure arrival filterStart filterEnd = Inr True)
   \<and> falsy (JString []) \<and> falsy JUndefined \<and> falsy JNull
   \<and> isTimeInRange (JString ''12:00'') (JString []) (JString []) False = Inr True
   \<and> isArrivalTimeInRange (JString ''10:00'') (JString ''11:00'') (JString []) (JString []) = Inr True"
  by (simp add: isTimeInRange_def isArrivalTimeInRange_def)

theorem empty_bound_permissive_witness:
  "isTimeInRange JUndefined (JString ''09:00'') (JString ''11:00'') False = Inr True
   \<and> isArrivalTimeInRange JUndefined (JString ''11:00'') (JString ''09:00'') JNull = Inr True"
  using empty_bound_permissive[of JUndefined "JString ''09:00''" "JString ''11:00''" False
      "JString ''11:00''" "JString ''09:00''" JNull JUndefined]
  by simp

subsection \<open>The conversion of clock times\<close>

text \<open>
  C6. On a valid clock time (hour at most 23, minute at most 59) \<^verbatim>\<open>timeToMinutes\<close> returns
  an integer between 0 and 1439, and two valid clock times with the same result are the
  same string.
\<close>

theorem timeToMinutes_valid_range_injective:
  "(valid_time t \<longrightarrow>
      (\<exists>n. timeToMinutes (JString t) = Inr (Num (of_nat n)) \<and> n \<le> 1439))
   \<and> (valid_time t \<and> valid_time u \<and> timeToMinutes (JString t) = timeToMinutes (JString u)
        \<longrightarrow> t = u)"
proof (intro conjI impI)
  assume v: "valid_time t"
  then have "timeToMinutes (JString t) = Inr (Num (of_nat (clock_hours t * 60 + clock_minutes t)))"
    by (simp add: valid_time_def timeToMinutes_well_formed)
  moreover from v have "clock_hours t * 60 + clock_minutes t \<le> 1439"
    by (simp add: valid_time_def)
  ultimately show "\<exists>n. timeToMinutes (JString t) = Inr (Num (of_nat n)) \<and> n \<le> 1439"
    by blast
next
  assume a: "valid_time t \<and> valid_time u \<and> timeToMinutes (JString t) = timeToMinutes (JString u)"
  then have w: "well_formed t" "well_formed u"
    and b: "clock_minutes t \<le> 59" "clock_minutes u \<le> 59"
    by (simp_all add: valid_time_def)
  from a have "Inr (Num (of_nat (clock_hours t * 60 + clock_minutes t))) =
      (Inr (Num (of_nat (clock_hours u * 60 + clock_minutes u))) :: error + jsnum)"
    by (simp only: timeToMinutes_well_formed[OF w(1)] timeToMinutes_well_formed[OF w(2)])
  then have "clock_hours t * 60 + clock_minutes t = clock_hours u * 60 + clock_minutes u"
    by (simp only: sum.inject jsnum.inject of_nat_eq_iff)
  then have e: "clock_hours t * 60 + clock_minutes t = clock_hours u * 60 + clock_minutes u" .
  have "(clock_hours t * 60 + clock_minutes t) div 60 = clock_hours t"
    "(clock_hours u * 60 + clock_minutes u) div 60 = clock_hours u"
    using b by simp_all
  with e have h: "clock_hours t = clock_hours u" by simp
  with e have "clock_minutes t = clock_minutes u" by simp
  with h have "clock_hours t = clock_hours u" "clock_minutes t = clock_minutes u" by simp_all
  with w show "t = u" by (rule well_formed_eqI)
qed

theorem timeToMinutes_valid_range_injective_witness:
  "valid_time ''23:59'' \<and> valid_time ''00:00''
   \<and> timeToMinutes (JString ''23:59'') = Inr (Num 1439)
   \<and> timeToMinutes (JString ''23:59'') \<noteq> timeToMinutes (JString ''00:00'')"
proof -
  have v: "valid_time ''23:59''" "valid_time ''00:00''"
    by (simp_all add: valid_time_def well_formed_def isDecimalDigit_range clock_hours_def
        clock_minutes_def digit_def)
  have e: "timeToMinutes (JString ''23:59'') = Inr (Num 1439)"
    by (simp add: js_eval)
  have "''23:59'' \<noteq> ''00:00''" by simp
  with timeToMinutes_valid_range_injective[of "''23:59''" "''00:00''"] v
  have "timeToMinutes (JString ''23:59'') \<noteq> timeToMinutes (JString ''00:00'')"
    by blast
  with v e show ?thesis by simp
qed

text \<open>
  C7. \<^verbatim>\<open>timeToMinutes\<close> checks no bounds, but it computes with doubles: the result is
  \<open>h * 60 + m\<close> for every pair of integer components only while the arithmetic is exact.
  At \<^verbatim>\<open>"9007199254740992:1"\<close> both components convert to the integers they write and the
  result is 540431955284459520, one less than \<open>h * 60 + m\<close>.
\<close>

theorem timeToMinutes_no_bounds_validation_counterexample:
  "js_split CHR '':'' ''9007199254740992:1'' = [''9007199254740992'', ''1'']
   \<and> Number_str ''9007199254740992'' = Num (of_int 9007199254740992)
   \<and> Number_str ''1'' = Num (of_int 1)
   \<and> timeToMinutes (JString ''9007199254740992:1'') = Inr (Num 540431955284459520)
   \<and> timeToMinutes (JString ''9007199254740992:1'')
       \<noteq> Inr (Num (of_int (9007199254740992 * 60 + 1)))"
proof -
  have s: "js_split CHR '':'' ''9007199254740992:1'' = [''9007199254740992'', ''1'']"
    by simp
  have r1: "roundToDouble 9007199254740992 = Num 9007199254740992"
    and r2: "roundToDouble 1 = Num 1"
    and r3: "roundToDouble 540431955284459520 = Num 540431955284459520"
    and r4: "roundToDouble 540431955284459521 = Num 540431955284459520"
    by code_simp+
  have t: "trimString ''9007199254740992'' = ''9007199254740992''" "trimString ''1'' = ''1''"
    by (simp_all add: trimString_def isStrWhiteSpaceChar_def)
  have h: "Number_str ''9007199254740992'' = Num 9007199254740992"
    unfolding Number_str_def t
    by (simp add: strDecimalLiteral_def strUnsignedDecimalLiteral_def isDecimalDigit_def
        digitValue_def pow10_def r1)
  have m: "Number_str ''1'' = Num 1"
    unfolding Number_str_def t
    by (simp add: strDecimalLiteral_def strUnsignedDecimalLiteral_def isDecimalDigit_def
        digitValue_def pow10_def r2)
  have v: "timeToMinutes (JString ''9007199254740992:1'') = Inr (Num 540431955284459520)"
    unfolding timeToMinutes_def split_colon.simps s
    by (simp add: h m r3 r4)
  from s h m v show ?thesis by simp
qed

text \<open>
  C7, amended. \<^verbatim>\<open>timeToMinutes\<close> checks no bounds: when the first two pieces of the split
  string convert to the integers \<open>h\<close> and \<open>m\<close> and \<open>|h| * 60 + |m|\<close> is below \<open>2^53\<close>, the
  result is \<open>h * 60 + m\<close>, whatever its sign and whether or not it lies between 0 and
  1439. \<^verbatim>\<open>timeToMinutes("25:99")\<close> is 1599.
\<close>

theorem timeToMinutes_no_bounds_validation:
  assumes "js_split CHR '':'' time = hs # ms # rest"
    "Number_str hs = Num (of_int h)" "Number_str ms = Num (of_int m)"
    "\<bar>h\<bar> * 60 + \<bar>m\<bar> < 2 ^ 53"
  shows "timeToMinutes (JString time) = Inr (Num (of_int (h * 60 + m)))
    \<and> timeToMinutes (JString ''25:99'') = Inr (Num 1599)"
proof
  have b: "\<bar>h * 60\<bar> < 2 ^ 53" "\<bar>h * 60 + m\<bar> < 2 ^ 53"
    using assms(4) by (simp_all add: abs_mult)
  have "timeToMinutes (JString time)
      = Inr (js_add (js_mul (Num (of_int h)) (Num (of_int 60))) (Num (of_int m)))"
    using assms(1-3) by (simp add: timeToMinutes_def del: js_mul.simps js_add.simps)
  then show "timeToMinutes (JString time) = Inr (Num (of_int (h * 60 + m)))"
    by (simp only: js_mul_int[OF b(1)] js_add_int[OF b(2)])
  show "timeToMinutes (JString ''25:99'') = Inr (Num 1599)"
    by (simp add: js_eval)
qed

theorem timeToMinutes_no_bounds_validation_witness:
  "js_split CHR '':'' ''-1:70:7'' = [''-1'', ''70'', ''7'']
   \<and> Number_str ''-1'' = Num (- 1) \<and> Number_str ''70'' = Num 70
   \<and> timeToMinutes (JString ''-1:70:7'') = Inr (Num 10)"
proof -
  have s: "js_split CHR '':'' ''-1:70:7'' = ''-1'' # ''70'' # [''7'']" by simp
  have h: "Number_str ''-1'' = Num (- 1)" by (simp add: js_eval)
  have m: "Number_str ''70'' = Num 70" by (simp add: js_eval)
  have h': "Number_str ''-1'' = Num (of_int (- 1))" unfolding h by simp
  have m': "Number_str ''70'' = Num (of_int 70)" unfolding m by simp
  have b: "\<bar>- 1 :: int\<bar> * 60 + \<bar>70\<bar> < 2 ^ 53" by simp
  have "timeToMinutes (JString ''-1:70:7'') = Inr (Num (of_int (- 1 * 60 + 70)))"
    using timeToMinutes_no_bounds_validation[OF s h' m' b] by (rule conjunct1)
  then have "timeToMinutes (JString ''-1:70:7'') = Inr (Num 10)" by simp
  with s h m show ?thesis by (intro conjI)
qed

subsection \<open>Filtering twice\<close>

text \<open>
  C8. Filtering is idempotent. When the filters of \<^verbatim>\<open>applyFilters\<close> return a list, the
  same filters applied to that list return it unchanged; they do return a list when the
  times of every record are strings; and \<^verbatim>\<open>applyFilters\<close>, when it completes without an
  exception, changes nothing if it is run again on the state whose current results are
  the filtered results it has just stored.
\<close>

theorem filtering_idempotent:
  "(filterResults f md xs = Inr ys \<longrightarrow> filterResults f md ys = Inr ys)
   \<and> ((\<forall>it\<in>set xs. string_times it) \<longrightarrow> (\<exists>zs. filterResults f md xs = Inr zs))
   \<and> (applyFilters present f st = (st', None) \<and> currentResults st \<noteq> [] \<longrightarrow>
        applyFilters present f (st'\<lparr>currentResults := filteredResults st'\<rparr>)
          = (st'\<lparr>currentResults := filteredResults st'\<rparr>, None))"
  using filterResults_idem filterResults_total applyFilters_again by blast

theorem filtering_idempotent_witness:
  "filterResults
      \<lparr>depTimeStart = [], depTimeEnd = [], arrTimeStart = ''00:00'', arrTimeEnd = ''03:00'',
        unitedOnly = False\<rparr> Schedules
      [\<lparr>departureTime = JString ''08:00'', arrivalTime = JString ''10:30'',
         carrierCode = JString ''UA'', carrierCodes = None\<rparr>,
       \<lparr>departureTime = JString ''23:00'', arrivalTime = JString ''02:00'',
         carrierCode = JString ''UA'', carrierCodes = None\<rparr>,
       \<lparr>departureTime = JString ''14:00'', arrivalTime = JString ''13:55'',
         carrierCode = JString ''UA'', carrierCodes = None\<rparr>]
     = Inr [\<lparr>departureTime = JString ''23:00'', arrivalTime = JString ''02:00'',
              carrierCode = JString ''UA'', carrierCodes = None\<rparr>]
   \<and> filterResults
      \<lparr>depTimeStart = [], depTimeEnd = [], arrTimeStart = ''00:00'', arrTimeEnd = ''03:00'',
        unitedOnly = False\<rparr> Schedules
      [\<lparr>departureTime = JString ''23:00'', arrivalTime = JString ''02:00'',
         carrierCode = JString ''UA'', carrierCodes = None\<rparr>]
     = Inr [\<lparr>departureTime = JString ''23:00'', arrivalTime = JString ''02:00'',
              carrierCode = JString ''UA'', carrierCodes = None\<rparr>]"
  (is "?once \<and> ?twice")
proof -
  have once: ?once by (simp add: filterResults_def js_eval)
  from filtering_idempotent[THEN conjunct1, rule_format, OF once] have ?twice .
  with once show ?thesis ..
qed

subsection \<open>The range validator\<close>



subsection \<open>The two conversions\<close>




end
